theory Spec2Isabelle
  imports Main
begin

section \<open>pdf2qbo: the statement scanner of \<open>ofx/domain.py\<close>\<close>

text \<open>
  The development embeds \<open>OfxBuilder.parse\<close>, \<open>StatementPeriodBuilder.parse\<close> and
  \<open>StatementTransactionBuilder.parse\<close>. A line is a \<open>string\<close>: a list of
  characters with code points below 256 (the statements are ASCII text). The buffer
  \<open>lines\<close>, which the source drains with \<open>lines.pop(0)\<close>, is passed in and handed back.
  Every exception the source can raise is a value of \<open>error\<close>.
\<close>

subsection \<open>Exceptions\<close>

datatype error =
    IndexError
  | AttributeError
  | TypeError
  | OverflowError
  | ValueError string
  | ValueError_unpack
  | ValueError_strptime
  | ValueError_datetime

text \<open>
  \<open>IndexError\<close>: \<open>pop\<close> on an empty buffer. \<open>AttributeError\<close>: \<open>.month\<close> of a statement
  start date that is still \<open>None\<close>. \<open>TypeError\<close>: arithmetic or concatenation with
  \<open>None\<close>. \<open>OverflowError\<close>: \<open>int\<close> of an infinite float. \<open>ValueError msg\<close>: the
  \<open>raise ValueError(msg)\<close> of the transaction builder. The last three are the
  \<open>ValueError\<close>s raised inside tuple unpacking, \<open>strptime\<close> and \<open>datetime\<close>.
\<close>

subsection \<open>Strings\<close>

definition pop :: "string list \<Rightarrow> error + (string \<times> string list)" where
  "pop lines = (case lines of [] \<Rightarrow> Inl IndexError | l # ls \<Rightarrow> Inr (l, ls))"

text \<open>\<open>line.startswith(p)\<close>\<close>

fun startswith :: "string \<Rightarrow> string \<Rightarrow> bool" where
  "startswith s [] = True"
| "startswith [] (p # ps) = False"
| "startswith (c # cs) (p # ps) = (c = p \<and> startswith cs ps)"

text \<open>\<open>k in s\<close> for strings: \<open>k\<close> occurs in \<open>s\<close> as a contiguous block.\<close>

fun str_in :: "string \<Rightarrow> string \<Rightarrow> bool" where
  "str_in k [] = (k = [])"
| "str_in k (c # cs) = (startswith (c # cs) k \<or> str_in k cs)"

text \<open>\<open>s.upper()\<close>: the letters a to z are replaced by A to Z.\<close>

definition upper_char :: "char \<Rightarrow> char" where
  "upper_char c =
     (case map_of (zip ''abcdefghijklmnopqrstuvwxyz'' ''ABCDEFGHIJKLMNOPQRSTUVWXYZ'') c of
        Some u \<Rightarrow> u | None \<Rightarrow> c)"

definition upper :: "string \<Rightarrow> string" where
  "upper s = map upper_char s"

text \<open>\<open>line.replace(',', '')\<close>\<close>

definition replace_comma :: "string \<Rightarrow> string" where
  "replace_comma line = filter (\<lambda>c. c \<noteq> CHR '','') line"

text \<open>\<open>line.split("-")\<close>: the pieces between the hyphens, at least one piece.\<close>

fun split_hyphen :: "string \<Rightarrow> string list" where
  "split_hyphen [] = [[]]"
| "split_hyphen (c # cs) =
     (if c = CHR ''-'' then [] # split_hyphen cs
      else (case split_hyphen cs of p # ps \<Rightarrow> (c # p) # ps | [] \<Rightarrow> [[c]]))"

definition is_digit :: "char \<Rightarrow> bool" where
  "is_digit c = (c \<in> set ''0123456789'')"

text \<open>\<open>\s\<close> of a Python 3 string pattern, on code points below 256.\<close>

definition is_space :: "char \<Rightarrow> bool" where
  "is_space c = (c \<in> set [CHR '' '', CHR 0x09, CHR 0x0A, CHR 0x0B, CHR 0x0C, CHR 0x0D,
                          CHR 0x1C, CHR 0x1D, CHR 0x1E, CHR 0x1F, CHR 0x85, CHR 0xA0])"

definition digit_val :: "char \<Rightarrow> nat" where
  "digit_val c = of_char c - 48"

text \<open>\<open>int(s)\<close> on a string of digits, most significant digit first.\<close>

definition int_of_digits :: "string \<Rightarrow> nat" where
  "int_of_digits s = foldl (\<lambda>n c. 10 * n + digit_val c) 0 s"

subsection \<open>Regular expressions\<close>

text \<open>
  The three patterns of the source are sequences of character classes, each taken once
  (\<open>\d\<close>), optionally (\<open>,?\<close>) or one or more times (\<open>\d+\<close>). \<open>re_rests items s\<close> lists
  what can be left of \<open>s\<close> after a match of the sequence at the start of \<open>s\<close>, over
  every way of matching (the longest repetition first, as the backtracking matcher
  tries them).
\<close>

datatype quant = Once | Opt | Plus

type_synonym re_item = "(char \<Rightarrow> bool) \<times> quant"

fun eat_one :: "(char \<Rightarrow> bool) \<Rightarrow> string \<Rightarrow> string list" where
  "eat_one p [] = []"
| "eat_one p (c # cs) = (if p c then [cs] else [])"

fun eat_plus :: "(char \<Rightarrow> bool) \<Rightarrow> string \<Rightarrow> string list" where
  "eat_plus p [] = []"
| "eat_plus p (c # cs) = (if p c then eat_plus p cs @ [cs] else [])"

fun item_rests :: "re_item \<Rightarrow> string \<Rightarrow> string list" where
  "item_rests (p, Once) s = eat_one p s"
| "item_rests (p, Opt) s = eat_one p s @ [s]"
| "item_rests (p, Plus) s = eat_plus p s"

fun re_rests :: "re_item list \<Rightarrow> string \<Rightarrow> string list" where
  "re_rests [] s = [s]"
| "re_rests (i # is) s = concat (map (re_rests is) (item_rests i s))"

text \<open>\<open>$\<close> matches at the end of the string and just before a newline that ends it.\<close>

definition at_dollar :: "string \<Rightarrow> bool" where
  "at_dollar r = (r = [] \<or> r = [CHR 0x0A])"

text \<open>\<open>"^\d+,?\d+\.\d{2}$"\<close>, the pattern of an amount line.\<close>

definition amount_re :: "re_item list" where
  "amount_re = [(is_digit, Plus), ((\<lambda>c. c = CHR '',''), Opt), (is_digit, Plus),
                ((\<lambda>c. c = CHR ''.''), Once), (is_digit, Once), (is_digit, Once)]"

definition match_amount :: "string \<Rightarrow> bool" where
  "match_amount line = list_ex at_dollar (re_rests amount_re line)"

text \<open>\<open>"^(\d{2})/(\d{2})"\<close>, the start of a transaction; the groups are the month and the day.\<close>

definition date_re :: "re_item list" where
  "date_re = [(is_digit, Once), (is_digit, Once), ((\<lambda>c. c = CHR ''/''), Once),
              (is_digit, Once), (is_digit, Once)]"

definition search_date :: "string \<Rightarrow> (int \<times> int) option" where
  "search_date line =
     (if re_rests date_re line \<noteq> []
      then Some (int (int_of_digits (take 2 line)), int (int_of_digits (take 2 (drop 3 line))))
      else None)"

subsection \<open>Dates\<close>

text \<open>
  A \<open>datetime\<close> at midnight: year, month, day. The time zone attached by the source
  (UTC or GMT) does not enter any computation.
\<close>

datatype datetime = Datetime (dt_year: int) (dt_month: int) (dt_day: int)

definition is_leap :: "int \<Rightarrow> bool" where
  "is_leap y = (y mod 4 = 0 \<and> (y mod 100 \<noteq> 0 \<or> y mod 400 = 0))"

definition days_in_month :: "int \<Rightarrow> int \<Rightarrow> int" where
  "days_in_month y m =
     (if m = 2 then (if is_leap y then 29 else 28)
      else if m = 4 \<or> m = 6 \<or> m = 9 \<or> m = 11 then 30 else 31)"

text \<open>\<open>datetime(month=m, day=d, year=y)\<close> raises \<open>ValueError\<close> outside the calendar.\<close>

definition new_datetime :: "int \<Rightarrow> int \<Rightarrow> int \<Rightarrow> error + datetime" where
  "new_datetime y m d =
     (if 1 \<le> y \<and> y \<le> 9999 \<and> 1 \<le> m \<and> m \<le> 12 \<and> 1 \<le> d \<and> d \<le> days_in_month y m
      then Inr (Datetime y m d) else Inl ValueError_datetime)"

text \<open>
  \<open>datetime.strptime(s, '%b %d %Y')\<close> in the C locale: a month abbreviation in any case,
  white space, a day of one or two digits (\<open>1\<close> to \<open>31\<close>, a leading zero allowed), white
  space, a year of four digits, and nothing more.
\<close>

definition month_abbr :: "string list" where
  "month_abbr = [''JAN'', ''FEB'', ''MAR'', ''APR'', ''MAY'', ''JUN'',
                 ''JUL'', ''AUG'', ''SEP'', ''OCT'', ''NOV'', ''DEC'']"

fun index_of :: "string \<Rightarrow> string list \<Rightarrow> int \<Rightarrow> int option" where
  "index_of k [] i = None"
| "index_of k (x # xs) i = (if k = x then Some i else index_of k xs (i + 1))"

definition strptime :: "string \<Rightarrow> error + datetime" where
  "strptime s =
     (let after_b = drop 3 s;
          at_d = dropWhile is_space after_b;
          d = takeWhile is_digit at_d;
          after_d = dropWhile is_digit at_d;
          y = dropWhile is_space after_d
      in case index_of (upper (take 3 s)) month_abbr 1 of
           None \<Rightarrow> Inl ValueError_strptime
         | Some m \<Rightarrow>
             if at_d \<noteq> after_b \<and> y \<noteq> after_d \<and> length d \<in> {1, 2}
                \<and> 1 \<le> int_of_digits d \<and> int_of_digits d \<le> 31
                \<and> length y = 4 \<and> list_all is_digit y
             then (case new_datetime (int (int_of_digits y)) m (int (int_of_digits d)) of
                     Inl e \<Rightarrow> Inl ValueError_strptime
                   | Inr t \<Rightarrow> Inr t)
             else Inl ValueError_strptime)"

subsection \<open>StatementPeriodBuilder.parse\<close>

definition StatementPeriodBuilder_parse ::
  "string list \<Rightarrow> error + ((datetime \<times> datetime) \<times> string list)" where
  "StatementPeriodBuilder_parse lines =
     (case pop lines of
        Inl e \<Rightarrow> Inl e
      | Inr (line, lines1) \<Rightarrow>
          (case split_hyphen line of
             [start, end] \<Rightarrow>
               (case strptime start of
                  Inl e \<Rightarrow> Inl e
                | Inr start_time \<Rightarrow>
                    (case strptime end of
                       Inl e \<Rightarrow> Inl e
                     | Inr end_time \<Rightarrow> Inr ((start_time, end_time), lines1)))
           | _ \<Rightarrow> Inl ValueError_unpack))"

subsection \<open>StatementTransactionBuilder.parse\<close>

datatype trntype = CREDIT | DEBIT

text \<open>
  \<open>STMTTRN\<close>, as the record of the arguments the source gives it. \<open>trnamt\<close> is the
  amount in hundredths: for an amount line the source computes \<open>float\<close> of the line
  without commas, the double nearest to the decimal number written there, which has
  the sign of that number and, up to 15 significant digits, prints back as the same
  decimal; the model keeps the decimal number itself, times 100. \<open>fitid\<close> is computed
  in binary floating point (\<open>int(amount * 100)\<close>) and is not a field of the model; the
  one exception it can raise is modelled below.
\<close>

record stmttrn =
  trntype :: trntype
  dtposted :: datetime
  trnamt :: int
  name :: string
  memo :: string

definition credit_types :: "string list" where
  "credit_types = [''DEPOSIT'', ''CREDIT'', ''REFUND'']"

definition debit_types :: "string list" where
  "debit_types = [''ELECTRONIC PMT'', ''PAY'', ''WITHDRAW'', ''DEBIT'', ''FEE'', ''CHARGE'',
                  ''PMT'', ''OVERDRAFT PD'']"

text \<open>
  Lines 200 to 212: the value of \<open>trntype\<close> when the keyword loops are done. The credit
  loop runs first, the checks section forces \<open>DEBIT\<close>, and the debit loop runs only
  when \<open>trntype\<close> is still \<open>None\<close>.
\<close>

definition classify :: "string \<Rightarrow> bool \<Rightarrow> trntype option" where
  "classify trntype_hint processing_checks =
     (let t1 = (if list_ex (\<lambda>credit_type. str_in credit_type (upper trntype_hint)) credit_types
                then Some CREDIT else None);
          t2 = (if processing_checks then Some DEBIT else t1)
      in if t2 = None
         then (if list_ex (\<lambda>debit_type. str_in debit_type (upper trntype_hint)) debit_types
               then Some DEBIT else None)
         else t2)"

text \<open>
  Lines 229 to 235: the loop that appends lines to the description until a line matches
  the amount pattern. It returns the description, the amount line and the buffer.
\<close>

fun accumulate :: "string \<Rightarrow> string \<Rightarrow> string list \<Rightarrow> error + (string \<times> string \<times> string list)" where
  "accumulate description line [] =
     (if match_amount line then Inr (description, line, []) else Inl IndexError)"
| "accumulate description line (l # ls) =
     (if match_amount line then Inr (description, line, l # ls)
      else accumulate (description @ '' '' @ line) l ls)"

text \<open>
  \<open>float(line.replace(',', ''))\<close> on a line that matches the amount pattern, in
  hundredths: the number written by the digits of the line.
\<close>

definition float_hundredths :: "string \<Rightarrow> int" where
  "float_hundredths line = int (int_of_digits (filter is_digit (replace_comma line)))"

text \<open>
  \<open>fitid\<close> takes \<open>int(amount * 100)\<close>, which raises \<open>OverflowError\<close> when the product is
  infinite. With round-to-nearest-even that is the case exactly when the amount in
  hundredths exceeds \<open>1152921504606846900 * 2 ^ 964\<close>.
\<close>

definition fitid_overflows :: "int \<Rightarrow> bool" where
  "fitid_overflows amount = (\<bar>amount\<bar> > 1152921504606846900 * 2 ^ 964)"

definition StatementTransactionBuilder_parse ::
  "string list \<Rightarrow> datetime \<Rightarrow> bool \<Rightarrow> error + (stmttrn option \<times> string list)" where
  "StatementTransactionBuilder_parse lines txn_date processing_checks =
     (case pop lines of
        Inl e \<Rightarrow> Inl e
      | Inr (trntype_hint, lines1) \<Rightarrow>
          (case classify trntype_hint processing_checks of
             None \<Rightarrow>
               if \<not> startswith trntype_hint ''Check #''
               then Inl (ValueError (''Unable to determine transaction type for '' @ trntype_hint))
               else (case pop lines1 of
                       Inl e \<Rightarrow> Inl e
                     | Inr (_, lines2) \<Rightarrow>
                         (case pop lines2 of
                            Inl e \<Rightarrow> Inl e
                          | Inr (_, lines3) \<Rightarrow> Inr (None, lines3)))
           | Some ttype \<Rightarrow>
               (case pop lines1 of
                  Inl e \<Rightarrow> Inl e
                | Inr (line, lines2) \<Rightarrow>
                    (case accumulate (if processing_checks then ''Check # '' @ trntype_hint else [])
                            line lines2 of
                       Inl e \<Rightarrow> Inl e
                     | Inr (description0, line1, lines3) \<Rightarrow>
                         (let description = (if description0 = [] then trntype_hint else description0);
                              amount0 = float_hundredths line1;
                              amount = (if ttype = DEBIT then - amount0 else amount0)
                          in if fitid_overflows amount then Inl OverflowError
                             else Inr (Some \<lparr>trntype = ttype, dtposted = txn_date,
                                             trnamt = amount, name = take 32 description,
                                             memo = []\<rparr>, lines3))))))"

subsection \<open>OfxBuilder.parse\<close>

text \<open>
  The fields of \<open>self\<close> (the first six) and the local variables of \<open>parse\<close> (the last
  four; \<open>loop_done\<close> is the local \<open>done\<close>).
\<close>

record scan =
  statement_start_date :: "datetime option"
  statement_end_date :: "datetime option"
  account_number :: "string option"
  year :: "int option"
  starting_statement_balance :: "string option"
  ending_statement_balance :: "string option"
  statement_transactions :: "stmttrn list"
  rollover_year :: bool
  loop_done :: bool
  processing_checks :: bool

text \<open>\<open>OfxBuilder.__init__\<close>, and the locals as lines 58 to 61 set them.\<close>

definition enter :: "scan \<Rightarrow> scan" where
  "enter s = s\<lparr>statement_transactions := [], rollover_year := True, loop_done := False,
               processing_checks := False\<rparr>"

definition OfxBuilder_init :: scan where
  "OfxBuilder_init =
     \<lparr>statement_start_date = None, statement_end_date = None, account_number = None,
      year = None, starting_statement_balance = None, ending_statement_balance = None,
      statement_transactions = [], rollover_year = True, loop_done = False,
      processing_checks = False\<rparr>"

text \<open>The truth value Python gives an optional string: \<open>None\<close> and \<open>''\<close> are false.\<close>

definition truthy :: "string option \<Rightarrow> bool" where
  "truthy v = (case v of None \<Rightarrow> False | Some x \<Rightarrow> x \<noteq> [])"

text \<open>Lines 101 to 117: a line that starts with a date opens a transaction.\<close>

definition transaction_step :: "scan \<Rightarrow> int \<Rightarrow> int \<Rightarrow> string list \<Rightarrow> error + (scan \<times> string list)" where
  "transaction_step s month day lines =
     (case statement_start_date s of
        None \<Rightarrow> Inl AttributeError
      | Some start \<Rightarrow>
          (case year s of
             None \<Rightarrow> Inl TypeError
           | Some y \<Rightarrow>
               (let roll = (dt_month start = 12 \<and> month = 1 \<and> rollover_year s);
                    s1 = (if roll then s\<lparr>year := Some (y + 1), rollover_year := False\<rparr> else s);
                    y1 = (if roll then y + 1 else y)
                in case new_datetime y1 month day of
                     Inl e \<Rightarrow> Inl e
                   | Inr txn_date \<Rightarrow>
                       (case StatementTransactionBuilder_parse lines txn_date (processing_checks s1) of
                          Inl e \<Rightarrow> Inl e
                        | Inr (None, lines1) \<Rightarrow> Inr (s1, lines1)
                        | Inr (Some statement_transaction, lines1) \<Rightarrow>
                            Inr (s1\<lparr>statement_transactions :=
                                      statement_transactions s1 @ [statement_transaction]\<rparr>, lines1)))))"

text \<open>Lines 65 to 71: the two section headers that switch the handling of checks.\<close>

definition set_section :: "scan \<Rightarrow> string \<Rightarrow> scan" where
  "set_section s line =
     (if startswith line ''Checks Paid'' then s\<lparr>processing_checks := True\<rparr>
      else if startswith line ''Electronic Payments'' then s\<lparr>processing_checks := False\<rparr>
      else s)"

text \<open>Lines 64 to 117: the body of the loop, on the line just popped.\<close>

definition iteration :: "scan \<Rightarrow> string \<Rightarrow> string list \<Rightarrow> error + (scan \<times> string list)" where
  "iteration s0 line lines =
     (let s = set_section s0 line
      in if startswith line ''Statement Period:'' then
           (case StatementPeriodBuilder_parse lines of
              Inl e \<Rightarrow> Inl e
            | Inr ((start_time, end_time), lines1) \<Rightarrow>
                Inr (s\<lparr>statement_start_date := Some start_time,
                        statement_end_date := Some end_time,
                        year := Some (dt_year start_time)\<rparr>, lines1))
         else if startswith line ''Primary Account #:'' then
           (case pop lines of
              Inl e \<Rightarrow> Inl e
            | Inr (line1, lines1) \<Rightarrow> Inr (s\<lparr>account_number := Some line1\<rparr>, lines1))
         else if startswith line ''Statement Balance as of'' then
           (case pop lines of
              Inl e \<Rightarrow> Inl e
            | Inr (line1, lines1) \<Rightarrow>
                if truthy (starting_statement_balance s)
                then Inr (s\<lparr>ending_statement_balance := Some (replace_comma line1)\<rparr>, lines1)
                else Inr (s\<lparr>starting_statement_balance := Some (replace_comma line1)\<rparr>, lines1))
         else if startswith line ''Beginning Balance'' then
           (case pop lines of
              Inl e \<Rightarrow> Inl e
            | Inr (line1, lines1) \<Rightarrow>
                Inr (s\<lparr>starting_statement_balance := Some (replace_comma line1)\<rparr>, lines1))
         else if startswith line ''Ending Balance'' then
           (case pop lines of
              Inl e \<Rightarrow> Inl e
            | Inr (line1, lines1) \<Rightarrow>
                Inr (s\<lparr>ending_statement_balance := Some (replace_comma line1)\<rparr>, lines1))
         else if startswith line ''DAILY BALANCE SUMMARY'' \<or> startswith line ''INTEREST SUMMARY'' then
           Inr (s\<lparr>loop_done := True\<rparr>, lines)
         else if \<not> loop_done s then
           (case search_date line of
              None \<Rightarrow> Inr (s, lines)
            | Some (month, day) \<Rightarrow> transaction_step s month day lines)
         else Inr (s, lines))"

text \<open>No part of the scanner ever puts a line back.\<close>

lemma pop_length: "pop lines = Inr (l, ls) \<Longrightarrow> length ls < length lines"
  by (auto simp: pop_def split: list.splits)

lemma accumulate_length:
  "accumulate d l ls = Inr (d', l', ls') \<Longrightarrow> length ls' \<le> length ls"
  by (induction d l ls rule: accumulate.induct) (auto split: if_splits)

lemma StatementTransactionBuilder_parse_length:
  "StatementTransactionBuilder_parse lines dt pc = Inr (r, lines') \<Longrightarrow> length lines' < length lines"
  by (auto simp: StatementTransactionBuilder_parse_def Let_def
           split: sum.splits option.splits if_splits prod.splits
           dest!: pop_length accumulate_length)

lemma StatementPeriodBuilder_parse_length:
  "StatementPeriodBuilder_parse lines = Inr (r, lines') \<Longrightarrow> length lines' < length lines"
  by (auto simp: StatementPeriodBuilder_parse_def
           split: sum.splits list.splits prod.splits dest!: pop_length)

lemma transaction_step_length:
  "transaction_step s m d lines = Inr (s', lines') \<Longrightarrow> length lines' < length lines"
  by (auto simp: transaction_step_def Let_def
           split: sum.splits option.splits if_splits prod.splits
           dest!: StatementTransactionBuilder_parse_length)

lemma iteration_length:
  "iteration s line lines = Inr (s', lines') \<Longrightarrow> length lines' \<le> length lines"
  unfolding iteration_def Let_def
  by (auto split: sum.splits option.splits if_splits prod.splits
           dest!: pop_length StatementPeriodBuilder_parse_length transaction_step_length)

text \<open>Lines 63 to 117: the loop \<open>while len(lines) and not done\<close>.\<close>

function parse_loop :: "scan \<Rightarrow> string list \<Rightarrow> error + scan" where
  "parse_loop s [] = Inr s"
| "parse_loop s (line # lines) =
     (if loop_done s then Inr s
      else (case iteration s line lines of
              Inl e \<Rightarrow> Inl e
            | Inr (s', lines') \<Rightarrow> parse_loop s' lines'))"
  by pat_completeness auto
termination
  by (relation "measure (\<lambda>(s, lines). length lines)") (auto dest: iteration_length)

text \<open>
  \<open>OfxBuilder.parse\<close>. The two \<open>print\<close> calls after the loop concatenate the balances
  to a string, which raises \<open>TypeError\<close> on \<open>None\<close>. Lines 123 to 138 then build the
  document \<open>self.ofx\<close> from the fields of the state and the list of transactions, with
  \<open>Decimal\<close> and the constructors of \<open>ofxtools\<close>. These raise on their own terms (an
  ending balance that is no number, a date or an account number that is still
  \<open>None\<close>), and they are code of the libraries, not of the source: they are the
  argument \<open>make_ofx\<close>, which gives the document or the exception for the state
  the loop has left. The result is the state together with the document.
\<close>

definition OfxBuilder_parse ::
  "(scan \<Rightarrow> error + 'ofx) \<Rightarrow> scan \<Rightarrow> string list \<Rightarrow> error + (scan \<times> 'ofx)" where
  "OfxBuilder_parse make_ofx self lines =
     (case parse_loop (enter self) lines of
        Inl e \<Rightarrow> Inl e
      | Inr s \<Rightarrow>
          if starting_statement_balance s = None \<or> ending_statement_balance s = None
          then Inl TypeError
          else (case make_ofx s of
                  Inl e \<Rightarrow> Inl e
                | Inr ofx \<Rightarrow> Inr (s, ofx)))"

subsection \<open>The lines a run scans\<close>

text \<open>
  The lines that line 64 pops in a run of the loop, each with the buffer it leaves
  behind: the first component is the line an iteration works on, the second what the
  iteration may consume.
\<close>

function scanned :: "scan \<Rightarrow> string list \<Rightarrow> (string \<times> string list) list" where
  "scanned s [] = []"
| "scanned s (line # lines) =
     (if loop_done s then []
      else (line, lines) #
           (case iteration s line lines of
              Inl e \<Rightarrow> []
            | Inr (s', lines') \<Rightarrow> scanned s' lines'))"
  by pat_completeness auto
termination
  by (relation "measure (\<lambda>(s, lines). length lines)") (auto dest: iteration_length)

text \<open>The iterations of a run whose line starts with \<open>p\<close>.\<close>

definition scanned_with :: "string \<Rightarrow> scan \<Rightarrow> string list \<Rightarrow> (string \<times> string list) list" where
  "scanned_with p s lines = filter (\<lambda>(line, rest). startswith line p) (scanned s lines)"

subsection \<open>Words of the specification\<close>

text \<open>
  A case-insensitive substring search: the hint contains one of the keywords, written
  in any mix of upper and lower case.
\<close>

definition mentions :: "string \<Rightarrow> string list \<Rightarrow> bool" where
  "mentions hint keywords =
     (\<exists>k \<in> set keywords. \<exists>before w after. hint = before @ w @ after \<and> upper w = k)"

section \<open>Properties\<close>

subsection \<open>Strings and keywords\<close>

lemma startswith_iff: "startswith s p \<longleftrightarrow> (\<exists>r. s = p @ r)"
  by (induction s p rule: startswith.induct) auto

lemma str_in_iff: "str_in k s \<longleftrightarrow> (\<exists>before after. s = before @ k @ after)"
proof (induction s)
  case Nil
  then show ?case by auto
next
  case (Cons c cs)
  show ?case
  proof
    assume "str_in k (c # cs)"
    then consider "startswith (c # cs) k" | "str_in k cs" by auto
    then show "\<exists>before after. c # cs = before @ k @ after"
    proof cases
      case 1
      then obtain r where "c # cs = k @ r" by (auto simp: startswith_iff)
      then have "c # cs = [] @ k @ r" by simp
      then show ?thesis by blast
    next
      case 2
      then obtain b a where "cs = b @ k @ a" using Cons.IH by auto
      then have "c # cs = (c # b) @ k @ a" by simp
      then show ?thesis by blast
    qed
  next
    assume "\<exists>before after. c # cs = before @ k @ after"
    then obtain b a where eq: "c # cs = b @ k @ a" by auto
    show "str_in k (c # cs)"
    proof (cases b)
      case Nil
      with eq have "startswith (c # cs) k" by (auto simp: startswith_iff)
      then show ?thesis by simp
    next
      case (Cons x b')
      with eq have "cs = b' @ k @ a" by simp
      then have "str_in k cs" using Cons.IH by blast
      then show ?thesis by simp
    qed
  qed
qed

lemma upper_contains:
  "(\<exists>before after. upper hint = before @ k @ after) \<longleftrightarrow>
   (\<exists>before w after. hint = before @ w @ after \<and> upper w = k)"
proof
  assume "\<exists>before after. upper hint = before @ k @ after"
  then obtain b a where "map upper_char hint = b @ (k @ a)" by (auto simp: upper_def)
  then have "\<exists>us vs. hint = us @ vs \<and> b = map upper_char us \<and> k @ a = map upper_char vs"
    by (simp only: map_eq_append_conv)
  then obtain us vs where h: "hint = us @ vs" and "map upper_char vs = k @ a" by auto
  then have "\<exists>w t. vs = w @ t \<and> k = map upper_char w \<and> a = map upper_char t"
    by (simp only: map_eq_append_conv)
  then obtain w t where "vs = w @ t" and "upper w = k" by (auto simp: upper_def)
  with h have "hint = us @ w @ t \<and> upper w = k" by simp
  then show "\<exists>before w after. hint = before @ w @ after \<and> upper w = k" by blast
next
  assume "\<exists>before w after. hint = before @ w @ after \<and> upper w = k"
  then obtain b w a where "hint = b @ w @ a" and "upper w = k" by auto
  then have "upper hint = upper b @ k @ upper a" by (auto simp: upper_def)
  then show "\<exists>before after. upper hint = before @ k @ after" by blast
qed

lemma list_ex_mentions:
  "list_ex (\<lambda>k. str_in k (upper hint)) keywords \<longleftrightarrow> mentions hint keywords"
  by (simp add: list_ex_iff mentions_def str_in_iff upper_contains)

lemma classify_mentions:
  "classify hint pc =
     (if pc then Some DEBIT
      else if mentions hint credit_types then Some CREDIT
      else if mentions hint debit_types then Some DEBIT
      else None)"
  by (simp add: classify_def Let_def list_ex_mentions)


lemma parse_Some_classify:
  "StatementTransactionBuilder_parse (hint # rest) d pc = Inr (Some t, rest')
   \<Longrightarrow> classify hint pc = Some (trntype t)"
  by (auto simp: StatementTransactionBuilder_parse_def pop_def Let_def
           split: option.splits sum.splits if_splits list.splits)

subsection \<open>Classification\<close>

text \<open>
  Claim C8. Outside the checks section the hint line is classified by a
  case-insensitive substring search, the credit keywords DEPOSIT, CREDIT, REFUND
  before the debit keywords ELECTRONIC PMT, PAY, WITHDRAW, DEBIT, FEE, CHARGE, PMT,
  OVERDRAFT PD. A hint that contains a keyword of both lists is a CREDIT, and the type
  of the transaction built from the hint is the type so found.
\<close>

theorem credit_keywords_first:
  "classify hint False =
     (if mentions hint credit_types then Some CREDIT
      else if mentions hint debit_types then Some DEBIT else None)
   \<and> (mentions hint credit_types \<and> mentions hint debit_types
        \<longrightarrow> classify hint False = Some CREDIT)
   \<and> (\<forall>rest d t rest'.
         StatementTransactionBuilder_parse (hint # rest) d False = Inr (Some t, rest')
         \<longrightarrow> classify hint False = Some (trntype t))"
  by (auto simp: classify_mentions dest: parse_Some_classify)

theorem credit_keywords_first_witness:
  "mentions ''Refund of late fee'' credit_types \<and> mentions ''Refund of late fee'' debit_types
   \<and> classify ''Refund of late fee'' False = Some CREDIT
   \<and> StatementTransactionBuilder_parse [''Refund of late fee'', ''12.50''] (Datetime 2021 3 14) False
       = Inr (Some \<lparr>trntype = CREDIT, dtposted = Datetime 2021 3 14, trnamt = 1250,
                    name = ''Refund of late fee'', memo = []\<rparr>, [])"
proof -
  have c: "mentions ''Refund of late fee'' credit_types"
    unfolding list_ex_mentions [symmetric] by code_simp
  have d: "mentions ''Refund of late fee'' debit_types"
    unfolding list_ex_mentions [symmetric] by code_simp
  have p: "StatementTransactionBuilder_parse [''Refund of late fee'', ''12.50''] (Datetime 2021 3 14) False
       = Inr (Some \<lparr>trntype = CREDIT, dtposted = Datetime 2021 3 14, trnamt = 1250,
                    name = ''Refund of late fee'', memo = []\<rparr>, [])"
    by code_simp
  from c d p credit_keywords_first [of "''Refund of late fee''"] show ?thesis by simp
qed


subsection \<open>Lines that open a transaction\<close>

lemma search_date_digit:
  "search_date line = Some md \<Longrightarrow> \<exists>c cs. line = c # cs \<and> is_digit c"
  by (cases line) (auto simp: search_date_def date_re_def split: if_splits)

lemma date_line_no_header:
  assumes "search_date line = Some md"
  shows "\<not> startswith line ''Checks Paid''"
    and "\<not> startswith line ''Electronic Payments''"
    and "\<not> startswith line ''Statement Period:''"
    and "\<not> startswith line ''Primary Account #:''"
    and "\<not> startswith line ''Statement Balance as of''"
    and "\<not> startswith line ''Beginning Balance''"
    and "\<not> startswith line ''Ending Balance''"
    and "\<not> startswith line ''DAILY BALANCE SUMMARY''"
    and "\<not> startswith line ''INTEREST SUMMARY''"
  using search_date_digit [OF assms] by (auto simp: is_digit_def)

lemma iteration_date:
  assumes "search_date line = Some (month, day)" and "\<not> loop_done s"
  shows "iteration s line lines = transaction_step s month day lines"
  unfolding iteration_def Let_def set_section_def
  using assms by (simp add: date_line_no_header [OF assms(1)])

lemma parse_unknown_hint:
  assumes "\<not> mentions hint credit_types" and "\<not> mentions hint debit_types"
    and "\<not> startswith hint ''Check #''"
  shows "StatementTransactionBuilder_parse (hint # rest) txn_date False
           = Inl (ValueError (''Unable to determine transaction type for '' @ hint))"
  using assms by (simp add: StatementTransactionBuilder_parse_def pop_def classify_mentions)

lemma parse_deferred_check:
  assumes "\<not> mentions hint credit_types" and "\<not> mentions hint debit_types"
    and "startswith hint ''Check #''"
  shows "StatementTransactionBuilder_parse (hint # l1 # l2 # rest) txn_date False = Inr (None, rest)"
  using assms by (simp add: StatementTransactionBuilder_parse_def pop_def classify_mentions)

lemma startswith_both:
  "startswith s p \<Longrightarrow> startswith s q \<Longrightarrow> startswith p q \<or> startswith q p"
proof (induction s p arbitrary: q rule: startswith.induct)
  case (1 s)
  then show ?case by simp
next
  case (2 p ps)
  then show ?case by simp
next
  case (3 c cs p ps)
  then show ?case by (cases q) auto
qed

lemma balance_header_only:
  assumes "startswith line ''Statement Balance as of''"
  shows "\<not> startswith line ''Checks Paid''"
    and "\<not> startswith line ''Electronic Payments''"
    and "\<not> startswith line ''Statement Period:''"
    and "\<not> startswith line ''Primary Account #:''"
  using startswith_both [OF assms] by fastforce+

lemma iteration_balance_header:
  assumes "startswith line ''Statement Balance as of''"
  shows "iteration s line (v # rest) =
           Inr (if truthy (starting_statement_balance s)
                then s\<lparr>ending_statement_balance := Some (replace_comma v)\<rparr>
                else s\<lparr>starting_statement_balance := Some (replace_comma v)\<rparr>, rest)"
  unfolding iteration_def Let_def set_section_def
  using assms by (simp add: balance_header_only [OF assms] pop_def)

subsection \<open>Unrecognised hint lines\<close>

text \<open>
  Claim C7. Outside the checks section, a hint line that contains no credit keyword and
  no debit keyword and does not begin with \<open>Check #\<close> makes the transaction builder
  raise \<open>ValueError\<close>; the exception leaves the loop and \<open>OfxBuilder.parse\<close>, so that
  no transaction is returned and no document is built, whatever the library calls
  behind the loop would do.
\<close>

theorem unknown_hint_is_fatal:
  assumes "\<not> mentions hint credit_types" and "\<not> mentions hint debit_types"
    and "\<not> startswith hint ''Check #''"
  shows "StatementTransactionBuilder_parse (hint # rest) txn_date False
           = Inl (ValueError (''Unable to determine transaction type for '' @ hint))
       \<and> (search_date line = Some (month, day) \<and> \<not> loop_done s \<and> \<not> processing_checks s
          \<and> statement_start_date s = Some start \<and> year s = Some y
          \<and> new_datetime (if dt_month start = 12 \<and> month = 1 \<and> rollover_year s then y + 1 else y)
                month day = Inr d
          \<longrightarrow> parse_loop s (line # hint # rest)
                = Inl (ValueError (''Unable to determine transaction type for '' @ hint)))
       \<and> (search_date line = Some (month, day)
          \<and> statement_start_date self = Some start \<and> year self = Some y
          \<and> new_datetime (if dt_month start = 12 \<and> month = 1 then y + 1 else y) month day = Inr d
          \<longrightarrow> OfxBuilder_parse make_ofx self (line # hint # rest)
                = Inl (ValueError (''Unable to determine transaction type for '' @ hint)))"
proof -
  let ?e = "Inl (ValueError (''Unable to determine transaction type for '' @ hint))"
  have p: "StatementTransactionBuilder_parse (hint # rest) dt False = ?e" for dt
    using assms by (rule parse_unknown_hint)
  have loop: "parse_loop s (line # hint # rest) = ?e"
    if "search_date line = Some (month, day)" "\<not> loop_done s" "\<not> processing_checks s"
       "statement_start_date s = Some start" "year s = Some y"
       "new_datetime (if dt_month start = 12 \<and> month = 1 \<and> rollover_year s then y + 1 else y)
          month day = Inr d" for s
  proof -
    have "transaction_step s month day (hint # rest) = ?e"
      using that by (auto simp: transaction_step_def Let_def p)
    then show ?thesis using that by (simp add: iteration_date)
  qed
  have "OfxBuilder_parse make_ofx self (line # hint # rest) = ?e"
    if "search_date line = Some (month, day)" "statement_start_date self = Some start"
       "year self = Some y"
       "new_datetime (if dt_month start = 12 \<and> month = 1 then y + 1 else y) month day = Inr d"
  proof -
    have "parse_loop (enter self) (line # hint # rest) = ?e"
      using that by (intro loop) (simp_all add: enter_def)
    then show ?thesis by (simp add: OfxBuilder_parse_def)
  qed
  with p loop show ?thesis by blast
qed

theorem unknown_hint_is_fatal_witness:
  "\<not> mentions ''MYSTERY ENTRY'' credit_types \<and> \<not> mentions ''MYSTERY ENTRY'' debit_types
   \<and> \<not> startswith ''MYSTERY ENTRY'' ''Check #''
   \<and> search_date ''05/01'' = Some (5, 1)
   \<and> new_datetime 2021 5 1 = Inr (Datetime 2021 5 1)
   \<and> OfxBuilder_parse Inr (OfxBuilder_init\<lparr>statement_start_date := Some (Datetime 2021 4 15),
                                            year := Some 2021\<rparr>)
        [''05/01'', ''MYSTERY ENTRY'', ''10.00'']
      = Inl (ValueError ''Unable to determine transaction type for MYSTERY ENTRY'')"
proof -
  have c: "\<not> mentions ''MYSTERY ENTRY'' credit_types"
    unfolding list_ex_mentions [symmetric] by code_simp
  have d: "\<not> mentions ''MYSTERY ENTRY'' debit_types"
    unfolding list_ex_mentions [symmetric] by code_simp
  have k: "\<not> startswith ''MYSTERY ENTRY'' ''Check #''" by simp
  have sd: "search_date ''05/01'' = Some (5, 1)" by code_simp
  have nd: "new_datetime 2021 5 1 = Inr (Datetime 2021 5 1)" by code_simp
  show ?thesis
    using unknown_hint_is_fatal [OF c d k, where line = "''05/01''" and month = 5 and day = 1
        and y = 2021 and start = "Datetime 2021 4 15" and d = "Datetime 2021 5 1"
        and rest = "[''10.00'']" and make_ofx = Inr
        and self = "OfxBuilder_init\<lparr>statement_start_date := Some (Datetime 2021 4 15),
                                     year := Some 2021\<rparr>"]
      c d k sd nd
    by (simp add: OfxBuilder_init_def)
qed

subsection \<open>Balance headers after the second\<close>

text \<open>
  Claim C9. When a line that starts with \<open>Statement Balance as of\<close> is scanned after
  both balances are set (the starting balance to a string that Python takes as true,
  that is, a non-empty one), the line that follows it, without its commas, replaces the
  ending balance; the starting balance and every other field stay as they are, no
  exception is raised, and the loop goes on behind the two lines.
\<close>

theorem later_balance_header_sets_ending:
  assumes "startswith line ''Statement Balance as of''"
    and "starting_statement_balance s = Some b" and "b \<noteq> []"
    and "ending_statement_balance s = Some e"
  shows "iteration s line (v # rest)
           = Inr (s\<lparr>ending_statement_balance := Some (replace_comma v)\<rparr>, rest)
       \<and> (\<not> loop_done s \<longrightarrow>
            parse_loop s (line # v # rest)
              = parse_loop (s\<lparr>ending_statement_balance := Some (replace_comma v)\<rparr>) rest)"
  using assms by (simp add: iteration_balance_header truthy_def)


theorem later_balance_header_sets_ending_witness:
  "startswith ''Statement Balance as of 02/28'' ''Statement Balance as of''
   \<and> iteration (OfxBuilder_init\<lparr>starting_statement_balance := Some ''1234.56'',
                                 ending_statement_balance := Some ''2345.67''\<rparr>)
        ''Statement Balance as of 02/28'' [''3,456.78'', ''Page 2'']
      = Inr (OfxBuilder_init\<lparr>starting_statement_balance := Some ''1234.56'',
                              ending_statement_balance := Some ''3456.78''\<rparr>, [''Page 2''])"
proof -
  have h: "startswith ''Statement Balance as of 02/28'' ''Statement Balance as of''" by simp
  have b: "''1234.56'' \<noteq> []" by simp
  show ?thesis
    using later_balance_header_sets_ending [OF h _ b, where e = "''2345.67''" and v = "''3,456.78''"
        and rest = "[''Page 2'']"
        and s = "OfxBuilder_init\<lparr>starting_statement_balance := Some ''1234.56'',
                                 ending_statement_balance := Some ''2345.67''\<rparr>"] h
    by (simp add: replace_comma_def)
qed

subsection \<open>Deferred checks\<close>

text \<open>
  Claim C10. When the hint line contains no keyword and begins with \<open>Check #\<close>,
  outside the checks section, the transaction builder pops the two lines that follow,
  whatever they are, and returns \<open>None\<close>. The scanner then goes on behind them with
  the balances, the statement period, the account number and the list of transactions
  unchanged.
\<close>

theorem deferred_check_skips_two_lines:
  assumes "\<not> mentions hint credit_types" and "\<not> mentions hint debit_types"
    and "startswith hint ''Check #''"
  shows "StatementTransactionBuilder_parse (hint # l1 # l2 # rest) txn_date False = Inr (None, rest)
       \<and> (search_date line = Some (month, day) \<and> \<not> loop_done s \<and> \<not> processing_checks s
          \<and> statement_start_date s = Some start \<and> year s = Some y
          \<and> new_datetime (if dt_month start = 12 \<and> month = 1 \<and> rollover_year s then y + 1 else y)
                month day = Inr d
          \<longrightarrow> (\<exists>s'. iteration s line (hint # l1 # l2 # rest) = Inr (s', rest)
                \<and> starting_statement_balance s' = starting_statement_balance s
                \<and> ending_statement_balance s' = ending_statement_balance s
                \<and> statement_start_date s' = statement_start_date s
                \<and> statement_end_date s' = statement_end_date s
                \<and> account_number s' = account_number s
                \<and> statement_transactions s' = statement_transactions s))"
proof -
  have p: "StatementTransactionBuilder_parse (hint # l1 # l2 # rest) dt False = Inr (None, rest)" for dt
    using assms by (rule parse_deferred_check)
  have "\<exists>s'. iteration s line (hint # l1 # l2 # rest) = Inr (s', rest)
                \<and> starting_statement_balance s' = starting_statement_balance s
                \<and> ending_statement_balance s' = ending_statement_balance s
                \<and> statement_start_date s' = statement_start_date s
                \<and> statement_end_date s' = statement_end_date s
                \<and> account_number s' = account_number s
                \<and> statement_transactions s' = statement_transactions s"
    if "search_date line = Some (month, day)" "\<not> loop_done s" "\<not> processing_checks s"
       "statement_start_date s = Some start" "year s = Some y"
       "new_datetime (if dt_month start = 12 \<and> month = 1 \<and> rollover_year s then y + 1 else y)
          month day = Inr d"
  proof -
    have "iteration s line (hint # l1 # l2 # rest) = transaction_step s month day (hint # l1 # l2 # rest)"
      using that by (simp add: iteration_date)
    also have "\<dots> = Inr (if dt_month start = 12 \<and> month = 1 \<and> rollover_year s
                          then s\<lparr>year := Some (y + 1), rollover_year := False\<rparr> else s, rest)"
      using that by (auto simp: transaction_step_def Let_def p)
    finally show ?thesis by auto
  qed
  with p show ?thesis by blast
qed


theorem deferred_check_skips_two_lines_witness:
  "\<not> mentions ''Check # 103'' credit_types \<and> \<not> mentions ''Check # 103'' debit_types
   \<and> startswith ''Check # 103'' ''Check #''
   \<and> search_date ''01/05'' = Some (1, 5)
   \<and> new_datetime 2021 1 5 = Inr (Datetime 2021 1 5)
   \<and> StatementTransactionBuilder_parse [''Check # 103'', ''some bank note'', ''120.00'', ''Checks Paid'']
        (Datetime 2021 1 5) False = Inr (None, [''Checks Paid''])
   \<and> (\<exists>s'. iteration (OfxBuilder_init\<lparr>statement_start_date := Some (Datetime 2021 1 1),
                                         year := Some 2021\<rparr>)
              ''01/05'' [''Check # 103'', ''some bank note'', ''120.00'', ''Checks Paid'']
            = Inr (s', [''Checks Paid''])
          \<and> statement_transactions s' = [] \<and> starting_statement_balance s' = None)"
proof -
  have c: "\<not> mentions ''Check # 103'' credit_types"
    unfolding list_ex_mentions [symmetric] by code_simp
  have d: "\<not> mentions ''Check # 103'' debit_types"
    unfolding list_ex_mentions [symmetric] by code_simp
  have k: "startswith ''Check # 103'' ''Check #''" by simp
  have sd: "search_date ''01/05'' = Some (1, 5)" by code_simp
  have nd: "new_datetime 2021 1 5 = Inr (Datetime 2021 1 5)" by code_simp
  have i: "statement_transactions (OfxBuilder_init\<lparr>statement_start_date := Some (Datetime 2021 1 1),
                                  year := Some 2021\<rparr>) = []
         \<and> starting_statement_balance (OfxBuilder_init\<lparr>statement_start_date := Some (Datetime 2021 1 1),
                                  year := Some 2021\<rparr>) = None
         \<and> \<not> loop_done (OfxBuilder_init\<lparr>statement_start_date := Some (Datetime 2021 1 1),
                                  year := Some 2021\<rparr>)
         \<and> \<not> processing_checks (OfxBuilder_init\<lparr>statement_start_date := Some (Datetime 2021 1 1),
                                  year := Some 2021\<rparr>)"
    by (simp add: OfxBuilder_init_def)
  from deferred_check_skips_two_lines [OF c d k, where line = "''01/05''" and month = 1
        and day = 5 and y = 2021 and start = "Datetime 2021 1 1" and d = "Datetime 2021 1 5"
        and ?l1.0 = "''some bank note''" and ?l2.0 = "''120.00''" and rest = "[''Checks Paid'']"
        and txn_date = "Datetime 2021 1 5"
        and s = "OfxBuilder_init\<lparr>statement_start_date := Some (Datetime 2021 1 1),
                                  year := Some 2021\<rparr>"]
  have "StatementTransactionBuilder_parse [''Check # 103'', ''some bank note'', ''120.00'', ''Checks Paid'']
        (Datetime 2021 1 5) False = Inr (None, [''Checks Paid''])
   \<and> (\<exists>s'. iteration (OfxBuilder_init\<lparr>statement_start_date := Some (Datetime 2021 1 1),
                                         year := Some 2021\<rparr>)
              ''01/05'' [''Check # 103'', ''some bank note'', ''120.00'', ''Checks Paid'']
            = Inr (s', [''Checks Paid''])
          \<and> statement_transactions s' = [] \<and> starting_statement_balance s' = None)"
    using sd nd i by auto
  with c d k sd nd show ?thesis by blast
qed

subsection \<open>Evaluating the transaction builder\<close>

lemma fitid_small: "\<bar>a\<bar> \<le> 1152921504606846900 \<Longrightarrow> \<not> fitid_overflows a"
proof -
  assume a: "\<bar>a\<bar> \<le> 1152921504606846900"
  have "(1152921504606846900::int) * 1 \<le> 1152921504606846900 * 2 ^ 964"
    by (intro mult_left_mono) simp_all
  with a show ?thesis by (simp add: fitid_overflows_def)
qed

lemmas parse_eval =
  StatementTransactionBuilder_parse_def pop_def classify_def Let_def credit_types_def
  debit_types_def upper_def upper_char_def match_amount_def amount_re_def at_dollar_def
  is_digit_def float_hundredths_def replace_comma_def int_of_digits_def digit_val_def
  fitid_small

lemma parse_card_purchase:
  "StatementTransactionBuilder_parse
     [''DEBIT CARD PURCHASE'', ''AMAZON.COM'', ''SEATTLE WA'', ''45.99''] d False
   = Inr (Some \<lparr>trntype = DEBIT, dtposted = d, trnamt = - 4599,
                name = '' AMAZON.COM SEATTLE WA'', memo = []\<rparr>, [])"
  by (simp add: parse_eval)

lemma parse_check_103:
  "StatementTransactionBuilder_parse [''103'', ''120.00''] d True
   = Inr (Some \<lparr>trntype = DEBIT, dtposted = d, trnamt = - 12000,
                name = ''Check # 103'', memo = []\<rparr>, [])"
  by (simp add: parse_eval)

lemma parse_check_103_deferred:
  "StatementTransactionBuilder_parse
     [''Check # 103'', ''some bank note'', ''120.00'', ''Checks Paid'', ''01/05'', ''103'', ''120.00'']
     d False
   = Inr (None, [''Checks Paid'', ''01/05'', ''103'', ''120.00''])"
  by (simp add: parse_eval)

lemma transaction_step_eq:
  assumes "statement_start_date s = Some start" and "year s = Some y"
    and "roll = (dt_month start = 12 \<and> month = 1 \<and> rollover_year s)"
    and "new_datetime (if roll then y + 1 else y) month day = Inr txn_date"
    and "sr = (if roll then s\<lparr>year := Some (y + 1), rollover_year := False\<rparr> else s)"
  shows "transaction_step s month day lines =
           (case StatementTransactionBuilder_parse lines txn_date (processing_checks s) of
              Inl e \<Rightarrow> Inl e
            | Inr (None, lines1) \<Rightarrow> Inr (sr, lines1)
            | Inr (Some t, lines1) \<Rightarrow>
                Inr (sr\<lparr>statement_transactions := statement_transactions s @ [t]\<rparr>, lines1))"
  using assms by (auto simp: transaction_step_def Let_def split: sum.splits option.splits)

lemma new_datetime_ok:
  "1 \<le> y \<Longrightarrow> y \<le> 9999 \<Longrightarrow> 1 \<le> m \<Longrightarrow> m \<le> 12 \<Longrightarrow> 1 \<le> d \<Longrightarrow> d \<le> 28
   \<Longrightarrow> new_datetime y m d = Inr (Datetime y m d)"
  by (auto simp: new_datetime_def days_in_month_def)

lemma search_date_0314: "search_date ''03/14'' = Some (3, 14)"
  by code_simp

lemma search_date_0105: "search_date ''01/05'' = Some (1, 5)"
  by code_simp

subsection \<open>A description of several lines\<close>

text \<open>
  Claim C1, as the code has it. With the statement period set, the lines \<open>03/14\<close>,
  \<open>DEBIT CARD PURCHASE\<close>, \<open>AMAZON.COM\<close>, \<open>SEATTLE WA\<close>, \<open>45.99\<close> add exactly one
  transaction: a DEBIT of -45.99 whose description is made of the lines between the
  hint and the amount, each preceded by a space. The hint line itself is the
  description only of a transaction that has no such lines (line 236 of the source),
  so the description here is \<open> AMAZON.COM SEATTLE WA\<close>, not the text that starts
  with \<open>DEBIT CARD PURCHASE\<close>; the counterexample runs the loop of
  \<open>OfxBuilder.parse\<close> on these lines, in a builder that has its period, account
  number and balances.
\<close>

theorem multi_line_description:
  assumes "\<not> loop_done s" and "\<not> processing_checks s"
    and "statement_start_date s = Some start" and "year s = Some y"
    and "1 \<le> y" and "y \<le> 9999"
  shows "parse_loop s [''03/14'', ''DEBIT CARD PURCHASE'', ''AMAZON.COM'', ''SEATTLE WA'', ''45.99'']
         = Inr (s\<lparr>statement_transactions := statement_transactions s @
                     [\<lparr>trntype = DEBIT, dtposted = Datetime y 3 14, trnamt = - 4599,
                       name = '' AMAZON.COM SEATTLE WA'', memo = []\<rparr>]\<rparr>)"
proof -
  have nd: "new_datetime y 3 14 = Inr (Datetime y 3 14)"
    using assms by (simp add: new_datetime_ok)
  have "transaction_step s 3 14 [''DEBIT CARD PURCHASE'', ''AMAZON.COM'', ''SEATTLE WA'', ''45.99'']
        = Inr (s\<lparr>statement_transactions := statement_transactions s @
                     [\<lparr>trntype = DEBIT, dtposted = Datetime y 3 14, trnamt = - 4599,
                       name = '' AMAZON.COM SEATTLE WA'', memo = []\<rparr>]\<rparr>, [])"
    using assms nd
    by (subst transaction_step_eq [where roll = False and txn_date = "Datetime y 3 14" and sr = s])
       (simp_all add: parse_card_purchase)
  then show ?thesis
    using assms by (simp add: iteration_date [OF search_date_0314])
qed

theorem multi_line_description_witness:
  "parse_loop (OfxBuilder_init\<lparr>statement_start_date := Some (Datetime 2022 3 1),
                                statement_end_date := Some (Datetime 2022 3 31),
                                year := Some 2022\<rparr>)
     [''03/14'', ''DEBIT CARD PURCHASE'', ''AMAZON.COM'', ''SEATTLE WA'', ''45.99'']
   = Inr (OfxBuilder_init\<lparr>statement_start_date := Some (Datetime 2022 3 1),
                           statement_end_date := Some (Datetime 2022 3 31),
                           year := Some 2022,
                           statement_transactions :=
                             [\<lparr>trntype = DEBIT, dtposted = Datetime 2022 3 14, trnamt = - 4599,
                               name = '' AMAZON.COM SEATTLE WA'', memo = []\<rparr>]\<rparr>)"
  using multi_line_description [where y = 2022 and start = "Datetime 2022 3 1"
      and s = "OfxBuilder_init\<lparr>statement_start_date := Some (Datetime 2022 3 1),
                                statement_end_date := Some (Datetime 2022 3 31),
                                year := Some 2022\<rparr>"]
  by (simp add: OfxBuilder_init_def)

theorem multi_line_description_counterexample:
  "parse_loop (OfxBuilder_init\<lparr>statement_start_date := Some (Datetime 2021 3 1),
                                statement_end_date := Some (Datetime 2021 3 31),
                                account_number := Some ''4321-0987654'',
                                year := Some 2021,
                                starting_statement_balance := Some ''100.00'',
                                ending_statement_balance := Some ''54.01''\<rparr>)
     [''03/14'', ''DEBIT CARD PURCHASE'', ''AMAZON.COM'', ''SEATTLE WA'', ''45.99'']
   = Inr (OfxBuilder_init\<lparr>statement_start_date := Some (Datetime 2021 3 1),
                           statement_end_date := Some (Datetime 2021 3 31),
                           account_number := Some ''4321-0987654'',
                           year := Some 2021,
                           starting_statement_balance := Some ''100.00'',
                           ending_statement_balance := Some ''54.01'',
                           statement_transactions :=
                             [\<lparr>trntype = DEBIT, dtposted = Datetime 2021 3 14, trnamt = - 4599,
                               name = '' AMAZON.COM SEATTLE WA'', memo = []\<rparr>]\<rparr>)
   \<and> '' AMAZON.COM SEATTLE WA'' \<noteq> ''DEBIT CARD PURCHASE AMAZON.COM SEATTLE WA''
   \<and> '' AMAZON.COM SEATTLE WA'' \<noteq> take 32 ''DEBIT CARD PURCHASE AMAZON.COM SEATTLE WA''"
  by (simp add: iteration_def set_section_def search_date_def date_re_def transaction_step_def
        new_datetime_def days_in_month_def OfxBuilder_init_def parse_eval)

subsection \<open>A check listed before the checks section\<close>

lemma iteration_checks_paid:
  "iteration s ''Checks Paid'' lines = Inr (s\<lparr>processing_checks := True\<rparr>, lines)"
  by (simp add: iteration_def set_section_def Let_def search_date_def date_re_def is_digit_def)

text \<open>
  Claim C5. With the statement period set, on the lines \<open>01/05\<close>, \<open>Check # 103\<close>,
  \<open>some bank note\<close>, \<open>120.00\<close>, \<open>Checks Paid\<close>, \<open>01/05\<close>, \<open>103\<close>, \<open>120.00\<close> the first
  entry adds no transaction: its iteration consumes the hint and the two lines behind
  it and returns without an exception. After the \<open>Checks Paid\<close> header the second
  entry adds exactly one transaction, a DEBIT of -120.00 with the description
  \<open>Check # 103\<close>. In a statement that starts in December the year of both entries is
  the year after the start year.
\<close>

theorem deferred_check_scenario:
  assumes "\<not> loop_done s" and "\<not> processing_checks s"
    and "statement_start_date s = Some start" and "year s = Some y"
    and "roll = (dt_month start = 12 \<and> rollover_year s)"
    and "y' = (if roll then y + 1 else y)" and "1 \<le> y'" and "y' \<le> 9999"
    and "s1 = (if roll then s\<lparr>year := Some (y + 1), rollover_year := False\<rparr> else s)"
  shows "iteration s ''01/05''
           [''Check # 103'', ''some bank note'', ''120.00'', ''Checks Paid'', ''01/05'', ''103'', ''120.00'']
         = Inr (s1, [''Checks Paid'', ''01/05'', ''103'', ''120.00''])
       \<and> parse_loop s
           [''01/05'', ''Check # 103'', ''some bank note'', ''120.00'',
            ''Checks Paid'', ''01/05'', ''103'', ''120.00'']
         = Inr (s1\<lparr>processing_checks := True,
                    statement_transactions := statement_transactions s @
                      [\<lparr>trntype = DEBIT, dtposted = Datetime y' 1 5, trnamt = - 12000,
                        name = ''Check # 103'', memo = []\<rparr>]\<rparr>)"
proof -
  have nd: "new_datetime y' 1 5 = Inr (Datetime y' 1 5)"
    using assms by (simp add: new_datetime_ok)
  have first: "iteration s ''01/05''
           [''Check # 103'', ''some bank note'', ''120.00'', ''Checks Paid'', ''01/05'', ''103'', ''120.00'']
         = Inr (s1, [''Checks Paid'', ''01/05'', ''103'', ''120.00''])"
    unfolding iteration_date [OF search_date_0105 assms(1)]
    using assms nd
    by (subst transaction_step_eq [where roll = roll and txn_date = "Datetime y' 1 5" and sr = s1])
       (simp_all add: parse_check_103_deferred)
  let ?s2 = "s1\<lparr>processing_checks := True\<rparr>"
  have s2: "\<not> loop_done ?s2" "statement_start_date ?s2 = Some start" "year ?s2 = Some y'"
    "processing_checks ?s2" "statement_transactions ?s2 = statement_transactions s"
    "\<not> (dt_month start = 12 \<and> (1::int) = 1 \<and> rollover_year ?s2)"
    using assms by auto
  have third: "iteration ?s2 ''01/05'' [''103'', ''120.00'']
         = Inr (?s2\<lparr>statement_transactions := statement_transactions s @
                      [\<lparr>trntype = DEBIT, dtposted = Datetime y' 1 5, trnamt = - 12000,
                        name = ''Check # 103'', memo = []\<rparr>]\<rparr>, [])"
    unfolding iteration_date [OF search_date_0105 s2(1)]
    using s2 nd
    by (subst transaction_step_eq [where roll = False and txn_date = "Datetime y' 1 5"
          and sr = ?s2 and y = y' and start = start])
       (simp_all add: parse_check_103)
  have "\<not> loop_done s1" using assms by auto
  with first third s2(1) assms(1) show ?thesis
    by (simp add: iteration_checks_paid)
qed


theorem deferred_check_scenario_witness:
  "parse_loop (OfxBuilder_init\<lparr>statement_start_date := Some (Datetime 2020 12 15),
                                statement_end_date := Some (Datetime 2021 1 14),
                                year := Some 2020\<rparr>)
     [''01/05'', ''Check # 103'', ''some bank note'', ''120.00'',
      ''Checks Paid'', ''01/05'', ''103'', ''120.00'']
   = Inr (OfxBuilder_init\<lparr>statement_start_date := Some (Datetime 2020 12 15),
                           statement_end_date := Some (Datetime 2021 1 14),
                           year := Some 2021, rollover_year := False,
                           processing_checks := True,
                           statement_transactions :=
                             [\<lparr>trntype = DEBIT, dtposted = Datetime 2021 1 5, trnamt = - 12000,
                               name = ''Check # 103'', memo = []\<rparr>]\<rparr>)"
proof -
  let ?s = "OfxBuilder_init\<lparr>statement_start_date := Some (Datetime 2020 12 15),
                             statement_end_date := Some (Datetime 2021 1 14),
                             year := Some 2020\<rparr>"
  let ?s1 = "OfxBuilder_init\<lparr>statement_start_date := Some (Datetime 2020 12 15),
                              statement_end_date := Some (Datetime 2021 1 14),
                              year := Some 2021, rollover_year := False\<rparr>"
  have a: "\<not> loop_done ?s" "\<not> processing_checks ?s"
    "statement_start_date ?s = Some (Datetime 2020 12 15)" "year ?s = Some 2020"
    by (simp_all add: OfxBuilder_init_def)
  have r: "True = (dt_month (Datetime 2020 12 15) = 12 \<and> rollover_year ?s)"
    by (simp add: OfxBuilder_init_def)
  have y: "(2021::int) = (if True then 2020 + 1 else 2020)" "(1::int) \<le> 2021" "(2021::int) \<le> 9999"
    by simp_all
  have s1: "?s1 = (if True then ?s\<lparr>year := Some (2020 + 1), rollover_year := False\<rparr> else ?s)"
    by (simp add: OfxBuilder_init_def)
  have t: "?s1\<lparr>processing_checks := True,
                statement_transactions := statement_transactions ?s @
                  [\<lparr>trntype = DEBIT, dtposted = Datetime 2021 1 5, trnamt = - 12000,
                    name = ''Check # 103'', memo = []\<rparr>]\<rparr>
           = OfxBuilder_init\<lparr>statement_start_date := Some (Datetime 2020 12 15),
                           statement_end_date := Some (Datetime 2021 1 14),
                           year := Some 2021, rollover_year := False,
                           processing_checks := True,
                           statement_transactions :=
                             [\<lparr>trntype = DEBIT, dtposted = Datetime 2021 1 5, trnamt = - 12000,
                               name = ''Check # 103'', memo = []\<rparr>]\<rparr>"
    by (simp add: OfxBuilder_init_def)
  from deferred_check_scenario [OF a r y s1, THEN conjunct2] show ?thesis
    unfolding t .
qed

subsection \<open>The sign of the amount\<close>

text \<open>
  Claim C2, as the code has it. The type of a transaction comes from the keywords of
  its hint line and the sign of its amount from the type: a DEBIT has an amount that is
  at most zero, a CREDIT one that is at least zero, a negative amount belongs to a
  DEBIT and a positive one to a CREDIT. An amount line of zeros such as \<open>00.00\<close>
  leaves a CREDIT with the amount 0, so the type is not determined by the amount alone:
  the counterexample is a CREDIT whose amount is not above zero.
\<close>

theorem amount_sign_follows_type:
  assumes "StatementTransactionBuilder_parse lines txn_date in_checks = Inr (Some t, lines')"
  shows "(trntype t = DEBIT \<longrightarrow> trnamt t \<le> 0) \<and> (trntype t = CREDIT \<longrightarrow> 0 \<le> trnamt t)
       \<and> (trnamt t < 0 \<longrightarrow> trntype t = DEBIT) \<and> (0 < trnamt t \<longrightarrow> trntype t = CREDIT)"
proof -
  from assms obtain ty line where t: "trntype t = ty"
    and a: "trnamt t = (if ty = DEBIT then - float_hundredths line else float_hundredths line)"
    by (auto simp: StatementTransactionBuilder_parse_def Let_def
             split: sum.splits option.splits if_splits prod.splits)
  have "0 \<le> float_hundredths line" by (simp add: float_hundredths_def)
  with t a show ?thesis by (cases ty) auto
qed

theorem amount_sign_follows_type_witness:
  "StatementTransactionBuilder_parse [''ATM WITHDRAWAL'', ''MAIN ST'', ''1,200.00'', ''03/15'']
     (Datetime 2021 3 14) False
   = Inr (Some \<lparr>trntype = DEBIT, dtposted = Datetime 2021 3 14, trnamt = - 120000,
                name = '' MAIN ST'', memo = []\<rparr>, [''03/15''])
   \<and> (- 120000 :: int) \<le> 0"
proof -
  have p: "StatementTransactionBuilder_parse [''ATM WITHDRAWAL'', ''MAIN ST'', ''1,200.00'', ''03/15'']
     (Datetime 2021 3 14) False
   = Inr (Some \<lparr>trntype = DEBIT, dtposted = Datetime 2021 3 14, trnamt = - 120000,
                name = '' MAIN ST'', memo = []\<rparr>, [''03/15''])"
    by (simp add: parse_eval)
  from amount_sign_follows_type [OF p] p show ?thesis by simp
qed

theorem strict_sign_invariant_counterexample:
  "StatementTransactionBuilder_parse [''DEPOSIT'', ''00.00''] (Datetime 2021 3 14) False
   = Inr (Some \<lparr>trntype = CREDIT, dtposted = Datetime 2021 3 14, trnamt = 0,
                name = ''DEPOSIT'', memo = []\<rparr>, [])
   \<and> \<not> ((0::int) > 0)"
  by (simp add: parse_eval)

subsection \<open>The amount pattern\<close>

text \<open>
  Claim C4. The loop over the description lines stops at the first line that matches
  \<open>^\d+,?\d+\.\d{2}$\<close>. The pattern asks for two digits or more before the decimal
  point, so the amount line \<open>5.00\<close> does not match: it is appended to the
  description, and the loop pops on, until the buffer is empty (\<open>IndexError\<close>) or a
  later line matches, which is then taken as the amount of this transaction.
\<close>

theorem single_digit_amount_not_matched:
  "\<not> match_amount ''5.00''
   \<and> StatementTransactionBuilder_parse [''SERVICE FEE'', ''5.00''] (Datetime 2021 3 14) False
       = Inl IndexError
   \<and> StatementTransactionBuilder_parse
         [''SERVICE FEE'', ''5.00'', ''03/15'', ''DEPOSIT'', ''100.00'', ''03/16'']
         (Datetime 2021 3 14) False
       = Inr (Some \<lparr>trntype = DEBIT, dtposted = Datetime 2021 3 14, trnamt = - 10000,
                    name = '' 5.00 03/15 DEPOSIT'', memo = []\<rparr>, [''03/16''])"
  by (simp add: parse_eval)

subsection \<open>The two balance headers\<close>

lemma scanned_with_Nil: "scanned_with p s [] = []"
  by (simp add: scanned_with_def)

lemma scanned_with_Cons:
  "scanned_with p s (line # lines) =
     (if loop_done s then []
      else (if startswith line p then [(line, lines)] else []) @
           (case iteration s line lines of
              Inl e \<Rightarrow> []
            | Inr (s', lines') \<Rightarrow> scanned_with p s' lines'))"
  by (auto simp: scanned_with_def split: sum.splits)

lemma set_section_balances:
  "starting_statement_balance (set_section s line) = starting_statement_balance s"
  "ending_statement_balance (set_section s line) = ending_statement_balance s"
  by (simp_all add: set_section_def)

lemma transaction_step_balances:
  "transaction_step s m d lines = Inr (s', lines') \<Longrightarrow>
   starting_statement_balance s' = starting_statement_balance s
   \<and> ending_statement_balance s' = ending_statement_balance s"
  by (auto simp: transaction_step_def Let_def
           split: option.splits sum.splits if_splits prod.splits)

lemma iteration_other_balances:
  assumes "iteration s line lines = Inr (s', lines')"
    and "\<not> startswith line ''Statement Balance as of''"
    and "\<not> startswith line ''Beginning Balance''"
    and "\<not> startswith line ''Ending Balance''"
  shows "starting_statement_balance s' = starting_statement_balance s
       \<and> ending_statement_balance s' = ending_statement_balance s"
  using assms unfolding iteration_def Let_def
  by (auto simp: set_section_balances split: if_splits sum.splits option.splits prod.splits
           dest!: transaction_step_balances)

lemma iteration_balance_header_Inr:
  assumes "iteration s line lines = Inr (s', lines')"
    and "startswith line ''Statement Balance as of''"
  shows "\<exists>v. lines = v # lines' \<and>
           s' = (if truthy (starting_statement_balance s)
                 then s\<lparr>ending_statement_balance := Some (replace_comma v)\<rparr>
                 else s\<lparr>starting_statement_balance := Some (replace_comma v)\<rparr>)"
proof (cases lines)
  case Nil
  with assms show ?thesis
    unfolding iteration_def Let_def
    by (simp add: balance_header_only [OF assms(2)] pop_def)
next
  case (Cons v rest)
  with assms show ?thesis by (simp add: iteration_balance_header)
qed

lemma run_without_balance_headers:
  assumes "parse_loop s lines = Inr s'"
    and "scanned_with ''Statement Balance as of'' s lines = []"
    and "scanned_with ''Beginning Balance'' s lines = []"
    and "scanned_with ''Ending Balance'' s lines = []"
  shows "starting_statement_balance s' = starting_statement_balance s
       \<and> ending_statement_balance s' = ending_statement_balance s"
  using assms
proof (induction s lines rule: parse_loop.induct)
  case (1 s)
  then show ?case by simp
next
  case (2 s line lines)
  show ?case
  proof (cases "loop_done s")
    case True
    with 2 show ?thesis by simp
  next
    case False
    with "2.prems"(1) obtain s1 l1 where it: "iteration s line lines = Inr (s1, l1)"
      and run: "parse_loop s1 l1 = Inr s'"
      by (auto split: sum.splits)
    from "2.prems"(2-4) False it
    have nl: "\<not> startswith line ''Statement Balance as of''"
      "\<not> startswith line ''Beginning Balance''" "\<not> startswith line ''Ending Balance''"
      and rest: "scanned_with ''Statement Balance as of'' s1 l1 = []"
      "scanned_with ''Beginning Balance'' s1 l1 = []" "scanned_with ''Ending Balance'' s1 l1 = []"
      by (auto simp: scanned_with_Cons split: if_splits)
    from "2.IH" [OF False it refl run rest]
    have "starting_statement_balance s' = starting_statement_balance s1
        \<and> ending_statement_balance s' = ending_statement_balance s1" .
    with iteration_other_balances [OF it nl] show ?thesis by simp
  qed
qed

lemma run_last_balance_header:
  assumes "parse_loop s lines = Inr s'"
    and "truthy (starting_statement_balance s)"
    and "scanned_with ''Statement Balance as of'' s lines = [(h, v # r)]"
    and "scanned_with ''Beginning Balance'' s lines = []"
    and "scanned_with ''Ending Balance'' s lines = []"
  shows "starting_statement_balance s' = starting_statement_balance s
       \<and> ending_statement_balance s' = Some (replace_comma v)"
  using assms
proof (induction s lines rule: parse_loop.induct)
  case (1 s)
  then show ?case by (simp add: scanned_with_Nil)
next
  case (2 s line lines)
  show ?case
  proof (cases "loop_done s")
    case True
    with 2 show ?thesis by (simp add: scanned_with_Cons)
  next
    case False
    with "2.prems"(1) obtain s1 l1 where it: "iteration s line lines = Inr (s1, l1)"
      and run: "parse_loop s1 l1 = Inr s'"
      by (auto split: sum.splits)
    from "2.prems"(4,5) False it
    have nl: "\<not> startswith line ''Beginning Balance''" "\<not> startswith line ''Ending Balance''"
      and rest: "scanned_with ''Beginning Balance'' s1 l1 = []"
        "scanned_with ''Ending Balance'' s1 l1 = []"
      by (auto simp: scanned_with_Cons split: if_splits)
    show ?thesis
    proof (cases "startswith line ''Statement Balance as of''")
      case True
      with "2.prems"(3) False it
      have eq: "line = h" "lines = v # r" and none: "scanned_with ''Statement Balance as of'' s1 l1 = []"
        by (auto simp: scanned_with_Cons)
      from iteration_balance_header_Inr [OF it True] "2.prems"(2) eq
      have s1: "s1 = s\<lparr>ending_statement_balance := Some (replace_comma v)\<rparr>" by auto
      from run_without_balance_headers [OF run none rest] s1 show ?thesis by simp
    next
      case no: False
      with "2.prems"(3) False it
      have one: "scanned_with ''Statement Balance as of'' s1 l1 = [(h, v # r)]"
        by (auto simp: scanned_with_Cons)
      from iteration_other_balances [OF it no nl]
      have same: "starting_statement_balance s1 = starting_statement_balance s" by simp
      with "2.prems"(2) have "truthy (starting_statement_balance s1)" by simp
      from "2.IH" [OF False it refl run this one rest] same show ?thesis by simp
    qed
  qed
qed

lemmas scan_eval =
  iteration_def set_section_def search_date_def date_re_def transaction_step_def
  new_datetime_def days_in_month_def is_leap_def truthy_def OfxBuilder_init_def
  enter_def parse_eval

text \<open>
  Claim C6, as the code has it. Take a run that starts with no starting balance and
  ends without an exception, in which the loop scans exactly two lines that start with
  \<open>Statement Balance as of\<close> and none that starts with \<open>Beginning Balance\<close> or
  \<open>Ending Balance\<close>, and in which the line after the first header is not empty once
  its commas are removed. Then the starting balance is the line after the first header
  and the ending balance the line after the second, both without commas; transactions
  and other lines may lie between the two. Two such lines in the input are not enough:
  a \<open>Beginning Balance\<close> header before them makes the first one set the ending
  balance, and a \<open>DAILY BALANCE SUMMARY\<close> line between them ends the loop before the
  second is scanned.
\<close>

theorem two_balance_headers:
  assumes "parse_loop s lines = Inr s'"
    and "\<not> truthy (starting_statement_balance s)"
    and "scanned_with ''Statement Balance as of'' s lines = [(h1, v1 # r1), (h2, v2 # r2)]"
    and "scanned_with ''Beginning Balance'' s lines = []"
    and "scanned_with ''Ending Balance'' s lines = []"
    and "replace_comma v1 \<noteq> []"
  shows "starting_statement_balance s' = Some (replace_comma v1)
       \<and> ending_statement_balance s' = Some (replace_comma v2)"
  using assms
proof (induction s lines rule: parse_loop.induct)
  case (1 s)
  then show ?case by (simp add: scanned_with_Nil)
next
  case (2 s line lines)
  show ?case
  proof (cases "loop_done s")
    case True
    with 2 show ?thesis by (simp add: scanned_with_Cons)
  next
    case False
    with "2.prems"(1) obtain s1 l1 where it: "iteration s line lines = Inr (s1, l1)"
      and run: "parse_loop s1 l1 = Inr s'"
      by (auto split: sum.splits)
    from "2.prems"(4,5) False it
    have nl: "\<not> startswith line ''Beginning Balance''" "\<not> startswith line ''Ending Balance''"
      and rest: "scanned_with ''Beginning Balance'' s1 l1 = []"
        "scanned_with ''Ending Balance'' s1 l1 = []"
      by (auto simp: scanned_with_Cons split: if_splits)
    show ?thesis
    proof (cases "startswith line ''Statement Balance as of''")
      case True
      with "2.prems"(3) False it
      have eq: "line = h1" "lines = v1 # r1"
        and one: "scanned_with ''Statement Balance as of'' s1 l1 = [(h2, v2 # r2)]"
        by (auto simp: scanned_with_Cons)
      from iteration_balance_header_Inr [OF it True] "2.prems"(2) eq
      have s1: "s1 = s\<lparr>starting_statement_balance := Some (replace_comma v1)\<rparr>" by auto
      with "2.prems"(6) have "truthy (starting_statement_balance s1)" by (simp add: truthy_def)
      from run_last_balance_header [OF run this one rest] s1 show ?thesis by simp
    next
      case no: False
      with "2.prems"(3) False it
      have two: "scanned_with ''Statement Balance as of'' s1 l1 = [(h1, v1 # r1), (h2, v2 # r2)]"
        by (auto simp: scanned_with_Cons)
      from iteration_other_balances [OF it no nl]
      have same: "starting_statement_balance s1 = starting_statement_balance s" by simp
      with "2.prems"(2) have "\<not> truthy (starting_statement_balance s1)" by simp
      from "2.IH" [OF False it refl run this two rest "2.prems"(6)] show ?thesis .
    qed
  qed
qed

theorem two_balance_headers_witness:
  "\<not> truthy (starting_statement_balance
        (OfxBuilder_init\<lparr>statement_start_date := Some (Datetime 2021 3 1), year := Some 2021\<rparr>))
   \<and> replace_comma ''1,234.56'' \<noteq> []
   \<and> (\<exists>s'. parse_loop
          (OfxBuilder_init\<lparr>statement_start_date := Some (Datetime 2021 3 1), year := Some 2021\<rparr>)
          [''Statement Balance as of 02/28'', ''1,234.56'', ''03/14'', ''DEPOSIT'', ''1,111.11'',
           ''Statement Balance as of 03/31'', ''2,345.67''] = Inr s'
        \<and> starting_statement_balance s' = Some ''1234.56''
        \<and> ending_statement_balance s' = Some ''2345.67'')"
proof -
  let ?s = "OfxBuilder_init\<lparr>statement_start_date := Some (Datetime 2021 3 1), year := Some 2021\<rparr>"
  let ?lines = "[''Statement Balance as of 02/28'', ''1,234.56'', ''03/14'', ''DEPOSIT'', ''1,111.11'',
           ''Statement Balance as of 03/31'', ''2,345.67'']"
  let ?s' = "OfxBuilder_init\<lparr>statement_start_date := Some (Datetime 2021 3 1), year := Some 2021,
      starting_statement_balance := Some ''1234.56'', ending_statement_balance := Some ''2345.67'',
      statement_transactions := [\<lparr>trntype = CREDIT, dtposted = Datetime 2021 3 14,
         trnamt = 111111, name = ''DEPOSIT'', memo = []\<rparr>]\<rparr>"
  have run: "parse_loop ?s ?lines = Inr ?s'" by (simp add: scan_eval)
  have fresh: "\<not> truthy (starting_statement_balance ?s)" by (simp add: scan_eval)
  have two: "scanned_with ''Statement Balance as of'' ?s ?lines =
      [(''Statement Balance as of 02/28'',
        ''1,234.56'' # [''03/14'', ''DEPOSIT'', ''1,111.11'', ''Statement Balance as of 03/31'', ''2,345.67'']),
       (''Statement Balance as of 03/31'', ''2,345.67'' # [])]"
    by (simp add: scanned_with_def scan_eval)
  have nb: "scanned_with ''Beginning Balance'' ?s ?lines = []"
    by (simp add: scanned_with_def scan_eval)
  have ne: "scanned_with ''Ending Balance'' ?s ?lines = []"
    by (simp add: scanned_with_def scan_eval)
  have v: "replace_comma ''1,234.56'' \<noteq> []" by (simp add: replace_comma_def)
  from two_balance_headers [OF run fresh two nb ne v]
  have "starting_statement_balance ?s' = Some ''1234.56''
      \<and> ending_statement_balance ?s' = Some ''2345.67''"
    by (simp add: replace_comma_def)
  with run fresh v show ?thesis by blast
qed

theorem two_balance_headers_counterexample:
  "parse_loop OfxBuilder_init
     [''Beginning Balance'', ''100.00'', ''Statement Balance as of'', ''1,234.56'',
      ''Statement Balance as of'', ''2,345.67'']
   = Inr (OfxBuilder_init\<lparr>starting_statement_balance := Some ''100.00'',
                           ending_statement_balance := Some ''2345.67''\<rparr>)
   \<and> ''100.00'' \<noteq> ''1234.56''
   \<and> parse_loop OfxBuilder_init
       [''Statement Balance as of'', ''1,234.56'', ''DAILY BALANCE SUMMARY'',
        ''Statement Balance as of'', ''2,345.67'']
     = Inr (OfxBuilder_init\<lparr>starting_statement_balance := Some ''1234.56'',
                             ending_statement_balance := None, loop_done := True\<rparr>)"
  by (simp add: scan_eval)

subsection \<open>The year of a transaction\<close>

lemma strptime_dec_15: "strptime ''Dec 15 2020'' = Inr (Datetime 2020 12 15)"
  by (simp add: strptime_def Let_def month_abbr_def upper_def upper_char_def is_space_def
        is_digit_def int_of_digits_def digit_val_def new_datetime_def days_in_month_def)

lemma strptime_jan_14: "strptime ''Jan 14 2021'' = Inr (Datetime 2021 1 14)"
  by (simp add: strptime_def Let_def month_abbr_def upper_def upper_char_def is_space_def
        is_digit_def int_of_digits_def digit_val_def new_datetime_def days_in_month_def)

lemma period_dec_jan:
  "StatementPeriodBuilder_parse (''Dec 15 2020-Jan 14 2021'' # lines)
   = Inr ((Datetime 2020 12 15, Datetime 2021 1 14), lines)"
  by (simp add: StatementPeriodBuilder_parse_def pop_def strptime_dec_15 strptime_jan_14)

text \<open>
  What the rollover does in a run that scans no further \<open>Statement Period:\<close> header.
  When the statement does not start in December, or the rollover has been done, the
  year stays as it is and every transaction gets it (\<open>run_year_fixed\<close>). When the
  statement starts in December and the rollover is still to come, every January
  transaction gets the year after the start year and the year is incremented at most
  once (\<open>run_year_december\<close>).
\<close>

lemma parse_Some_dtposted:
  "StatementTransactionBuilder_parse lines d pc = Inr (Some t, lines') \<Longrightarrow> dtposted t = d"
  by (auto simp: StatementTransactionBuilder_parse_def Let_def
           split: sum.splits option.splits if_splits prod.splits)

lemma new_datetime_Inr: "new_datetime y m d = Inr dt \<Longrightarrow> dt = Datetime y m d"
  by (auto simp: new_datetime_def split: if_splits)

lemma set_section_year:
  "statement_start_date (set_section s line) = statement_start_date s"
  "year (set_section s line) = year s"
  "rollover_year (set_section s line) = rollover_year s"
  "statement_transactions (set_section s line) = statement_transactions s"
  "loop_done (set_section s line) = loop_done s"
  by (simp_all add: set_section_def)

lemma transaction_step_year:
  assumes "transaction_step s m d lines = Inr (s', lines')"
    and "statement_start_date s = Some start" and "year s = Some y"
  shows "statement_start_date s' = Some start \<and>
         (\<exists>ts. statement_transactions s' = statement_transactions s @ ts \<and>
            ((year s' = Some y \<and> rollover_year s' = rollover_year s
                \<and> (\<forall>t\<in>set ts. dt_year (dtposted t) = y
                      \<and> (dt_month start = 12 \<and> rollover_year s \<longrightarrow> dt_month (dtposted t) \<noteq> 1)))
             \<or> (dt_month start = 12 \<and> rollover_year s \<and> year s' = Some (y + 1)
                \<and> \<not> rollover_year s' \<and> (\<forall>t\<in>set ts. dt_year (dtposted t) = y + 1))))"
proof -
  define roll where "roll = (dt_month start = 12 \<and> m = 1 \<and> rollover_year s)"
  define sr where "sr = (if roll then s\<lparr>year := Some (y + 1), rollover_year := False\<rparr> else s)"
  from assms obtain dt where nd: "new_datetime (if roll then y + 1 else y) m d = Inr dt"
    by (auto simp: transaction_step_def Let_def roll_def split: sum.splits)
  then have dt: "dt = Datetime (if roll then y + 1 else y) m d" by (rule new_datetime_Inr)
  from assms(1) have step: "(case StatementTransactionBuilder_parse lines dt (processing_checks s) of
              Inl e \<Rightarrow> Inl e
            | Inr (None, lines1) \<Rightarrow> Inr (sr, lines1)
            | Inr (Some t, lines1) \<Rightarrow>
                Inr (sr\<lparr>statement_transactions := statement_transactions s @ [t]\<rparr>, lines1))
          = Inr (s', lines')"
    using transaction_step_eq [OF assms(2,3) roll_def nd sr_def] by simp
  then consider (none) "s' = sr"
    | (some) t where "s' = sr\<lparr>statement_transactions := statement_transactions s @ [t]\<rparr>"
        "dtposted t = dt"
    by (auto split: sum.splits option.splits prod.splits dest: parse_Some_dtposted)
  then show ?thesis
  proof cases
    case none
    then show ?thesis using assms(2,3) by (auto simp: sr_def roll_def)
  next
    case some
    then show ?thesis using assms(2,3) dt by (auto simp: sr_def roll_def)
  qed
qed

lemma iteration_year:
  assumes "iteration s line lines = Inr (s', lines')"
    and "\<not> startswith line ''Statement Period:''"
    and "statement_start_date s = Some start" and "year s = Some y"
  shows "statement_start_date s' = Some start \<and>
         (\<exists>ts. statement_transactions s' = statement_transactions s @ ts \<and>
            ((year s' = Some y \<and> rollover_year s' = rollover_year s
                \<and> (\<forall>t\<in>set ts. dt_year (dtposted t) = y
                      \<and> (dt_month start = 12 \<and> rollover_year s \<longrightarrow> dt_month (dtposted t) \<noteq> 1)))
             \<or> (dt_month start = 12 \<and> rollover_year s \<and> year s' = Some (y + 1)
                \<and> \<not> rollover_year s' \<and> (\<forall>t\<in>set ts. dt_year (dtposted t) = y + 1))))"
proof (cases "\<exists>m d. search_date line = Some (m, d) \<and> \<not> loop_done s")
  case True
  then obtain m d where sd: "search_date line = Some (m, d)" and nd: "\<not> loop_done s" by blast
  from assms(1) have "transaction_step s m d lines = Inr (s', lines')"
    by (simp add: iteration_date [OF sd nd])
  from transaction_step_year [OF this assms(3,4)] show ?thesis .
next
  case False
  with assms have "statement_start_date s' = Some start \<and> year s' = Some y
      \<and> rollover_year s' = rollover_year s \<and> statement_transactions s' = statement_transactions s"
    unfolding iteration_def Let_def
    by (auto simp: set_section_year split: if_splits sum.splits option.splits prod.splits)
  then show ?thesis by auto
qed

lemma run_year_fixed:
  assumes "parse_loop s lines = Inr s'"
    and "scanned_with ''Statement Period:'' s lines = []"
    and "statement_start_date s = Some start" and "year s = Some y"
    and "dt_month start \<noteq> 12 \<or> \<not> rollover_year s"
  shows "\<exists>ts. statement_transactions s' = statement_transactions s @ ts
            \<and> year s' = Some y \<and> (\<forall>t\<in>set ts. dt_year (dtposted t) = y)"
  using assms
proof (induction s lines rule: parse_loop.induct)
  case (1 s)
  then show ?case by simp
next
  case (2 s line lines)
  show ?case
  proof (cases "loop_done s")
    case True
    with 2 show ?thesis by simp
  next
    case False
    with "2.prems"(1) obtain s1 l1 where it: "iteration s line lines = Inr (s1, l1)"
      and run: "parse_loop s1 l1 = Inr s'"
      by (auto split: sum.splits)
    from "2.prems"(2) False it
    have np: "\<not> startswith line ''Statement Period:''"
      and rest: "scanned_with ''Statement Period:'' s1 l1 = []"
      by (auto simp: scanned_with_Cons split: if_splits)
    from iteration_year [OF it np "2.prems"(3,4)] "2.prems"(5)
    obtain ts1 where s1: "statement_start_date s1 = Some start"
      "statement_transactions s1 = statement_transactions s @ ts1"
      "year s1 = Some y" "rollover_year s1 = rollover_year s"
      "\<forall>t\<in>set ts1. dt_year (dtposted t) = y"
      by auto
    from s1(4) "2.prems"(5) have "dt_month start \<noteq> 12 \<or> \<not> rollover_year s1" by simp
    from "2.IH" [OF False it refl run rest s1(1,3) this]
    obtain ts2 where "statement_transactions s' = statement_transactions s1 @ ts2"
      "year s' = Some y" "\<forall>t\<in>set ts2. dt_year (dtposted t) = y"
      by auto
    with s1 have "statement_transactions s' = statement_transactions s @ (ts1 @ ts2)
        \<and> year s' = Some y \<and> (\<forall>t\<in>set (ts1 @ ts2). dt_year (dtposted t) = y)"
      by auto
    then show ?thesis by blast
  qed
qed

lemma run_year_december:
  assumes "parse_loop s lines = Inr s'"
    and "scanned_with ''Statement Period:'' s lines = []"
    and "statement_start_date s = Some start" and "year s = Some y"
    and "dt_month start = 12" and "rollover_year s"
  shows "\<exists>ts. statement_transactions s' = statement_transactions s @ ts
            \<and> (year s' = Some y \<or> year s' = Some (y + 1))
            \<and> (\<forall>t\<in>set ts. if dt_month (dtposted t) = 1 then dt_year (dtposted t) = y + 1
                             else dt_year (dtposted t) = y \<or> dt_year (dtposted t) = y + 1)"
  using assms
proof (induction s lines rule: parse_loop.induct)
  case (1 s)
  then show ?case by simp
next
  case (2 s line lines)
  show ?case
  proof (cases "loop_done s")
    case True
    with 2 show ?thesis by simp
  next
    case False
    with "2.prems"(1) obtain s1 l1 where it: "iteration s line lines = Inr (s1, l1)"
      and run: "parse_loop s1 l1 = Inr s'"
      by (auto split: sum.splits)
    from "2.prems"(2) False it
    have np: "\<not> startswith line ''Statement Period:''"
      and rest: "scanned_with ''Statement Period:'' s1 l1 = []"
      by (auto simp: scanned_with_Cons split: if_splits)
    from iteration_year [OF it np "2.prems"(3,4)] "2.prems"(5,6)
    obtain ts1 where s1: "statement_start_date s1 = Some start"
      "statement_transactions s1 = statement_transactions s @ ts1"
      and alt: "(year s1 = Some y \<and> rollover_year s1
                  \<and> (\<forall>t\<in>set ts1. dt_year (dtposted t) = y \<and> dt_month (dtposted t) \<noteq> 1))
              \<or> (year s1 = Some (y + 1) \<and> \<not> rollover_year s1
                  \<and> (\<forall>t\<in>set ts1. dt_year (dtposted t) = y + 1))"
      by auto
    from alt show ?thesis
    proof
      assume a: "year s1 = Some y \<and> rollover_year s1
                  \<and> (\<forall>t\<in>set ts1. dt_year (dtposted t) = y \<and> dt_month (dtposted t) \<noteq> 1)"
      from "2.IH" [OF False it refl run rest s1(1) _ "2.prems"(5)] a
      obtain ts2 where "statement_transactions s' = statement_transactions s1 @ ts2"
        "year s' = Some y \<or> year s' = Some (y + 1)"
        "\<forall>t\<in>set ts2. if dt_month (dtposted t) = 1 then dt_year (dtposted t) = y + 1
                             else dt_year (dtposted t) = y \<or> dt_year (dtposted t) = y + 1"
        by auto
      with s1 a have "statement_transactions s' = statement_transactions s @ (ts1 @ ts2)
        \<and> (year s' = Some y \<or> year s' = Some (y + 1))
        \<and> (\<forall>t\<in>set (ts1 @ ts2). if dt_month (dtposted t) = 1 then dt_year (dtposted t) = y + 1
                             else dt_year (dtposted t) = y \<or> dt_year (dtposted t) = y + 1)"
        by auto
      then show ?thesis by blast
    next
      assume b: "year s1 = Some (y + 1) \<and> \<not> rollover_year s1
                  \<and> (\<forall>t\<in>set ts1. dt_year (dtposted t) = y + 1)"
      then have "dt_month start \<noteq> 12 \<or> \<not> rollover_year s1" by simp
      from run_year_fixed [OF run rest s1(1) _ this] b
      obtain ts2 where "statement_transactions s' = statement_transactions s1 @ ts2"
        "year s' = Some (y + 1)" "\<forall>t\<in>set ts2. dt_year (dtposted t) = y + 1"
        by auto
      with s1 b have "statement_transactions s' = statement_transactions s @ (ts1 @ ts2)
        \<and> (year s' = Some y \<or> year s' = Some (y + 1))
        \<and> (\<forall>t\<in>set (ts1 @ ts2). if dt_month (dtposted t) = 1 then dt_year (dtposted t) = y + 1
                             else dt_year (dtposted t) = y \<or> dt_year (dtposted t) = y + 1)"
        by auto
      then show ?thesis by blast
    qed
  qed
qed

text \<open>
  Claim C3. In a statement that starts in December, a transaction dated in January
  belongs to the year after the start year. The source adds one to \<open>self.year\<close> at
  the first January line and clears the local \<open>rollover_year\<close>; a later
  \<open>Statement Period:\<close> header (the header of a further page) sets \<open>self.year\<close> back to
  the start year and leaves \<open>rollover_year\<close> cleared. In the run of the loop below,
  from a new builder, the statement runs from Dec 15 2020 to Jan 14 2021 and has a
  second page with the same header: the deposit of 01/05 is dated 2021, the deposit of
  01/06, behind the second header, is dated 2020.
\<close>

theorem repeated_period_header_resets_year:
  "parse_loop OfxBuilder_init
     [''Statement Period:'', ''Dec 15 2020-Jan 14 2021'',
      ''Primary Account #:'', ''4321-0987654'',
      ''Beginning Balance'', ''100.00'', ''Ending Balance'', ''130.00'',
      ''01/05'', ''DEPOSIT'', ''10.00'',
      ''Statement Period:'', ''Dec 15 2020-Jan 14 2021'',
      ''Primary Account #:'', ''4321-0987654'',
      ''01/06'', ''DEPOSIT'', ''20.00'']
   = Inr (OfxBuilder_init\<lparr>statement_start_date := Some (Datetime 2020 12 15),
                           statement_end_date := Some (Datetime 2021 1 14),
                           account_number := Some ''4321-0987654'',
                           year := Some 2020,
                           starting_statement_balance := Some ''100.00'',
                           ending_statement_balance := Some ''130.00'',
                           statement_transactions :=
                             [\<lparr>trntype = CREDIT, dtposted = Datetime 2021 1 5, trnamt = 1000,
                               name = ''DEPOSIT'', memo = []\<rparr>,
                              \<lparr>trntype = CREDIT, dtposted = Datetime 2020 1 6, trnamt = 2000,
                               name = ''DEPOSIT'', memo = []\<rparr>],
                           rollover_year := False\<rparr>)"
  by (simp add: period_dec_jan scan_eval)

end
